theory Spec2Isabelle
  imports Main "HOL-Library.Sublist"
begin

section \<open>Python strings\<close>

text \<open>
  The program is \<^verbatim>\<open>backend/main.py\<close>. A Python \<^verbatim>\<open>str\<close> is modelled as a \<^typ>\<open>string\<close>.
  The characters below 128 are the ASCII characters and behave as in Python. The
  characters from 128 on stand for code points outside ASCII that are neither white
  space, nor alphanumeric, nor cased (symbols and punctuation): \<^verbatim>\<open>str.upper\<close>,
  \<^verbatim>\<open>str.lower\<close> leave them alone, \<^verbatim>\<open>str.strip\<close> does not remove them, and the
  regular expressions treat them as non-word characters.
\<close>

definition dq :: char where
  "dq = CHR 0x22"

definition ascii_lowercase :: string where
  "ascii_lowercase = ''abcdefghijklmnopqrstuvwxyz''"

definition ascii_uppercase :: string where
  "ascii_uppercase = ''ABCDEFGHIJKLMNOPQRSTUVWXYZ''"

definition ascii_digits :: string where
  "ascii_digits = ''0123456789''"

definition upper_char :: "char \<Rightarrow> char" where
  "upper_char c =
     (case map_of (zip ascii_lowercase ascii_uppercase) c of Some u \<Rightarrow> u | None \<Rightarrow> c)"

definition lower_char :: "char \<Rightarrow> char" where
  "lower_char c =
     (case map_of (zip ascii_uppercase ascii_lowercase) c of Some l \<Rightarrow> l | None \<Rightarrow> c)"

text \<open>\<^verbatim>\<open>str.upper()\<close> and \<^verbatim>\<open>str.lower()\<close>.\<close>

definition py_upper :: "string \<Rightarrow> string" where
  "py_upper s = map upper_char s"

definition py_lower :: "string \<Rightarrow> string" where
  "py_lower s = map lower_char s"

text \<open>
  \<^verbatim>\<open>str.isspace()\<close> on one character: tab, line feed, vertical tab, form feed,
  carriage return, the four separators 0x1C to 0x1F, and the space.
\<close>

definition is_space :: "char \<Rightarrow> bool" where
  "is_space c =
     (c \<in> set [CHR 0x09, CHR 0x0A, CHR 0x0B, CHR 0x0C, CHR 0x0D,
                CHR 0x1C, CHR 0x1D, CHR 0x1E, CHR 0x1F, CHR 0x20])"

text \<open>\<^verbatim>\<open>str.strip()\<close> with no argument.\<close>

definition py_strip :: "string \<Rightarrow> string" where
  "py_strip s = rev (dropWhile is_space (rev (dropWhile is_space s)))"

text \<open>\<^verbatim>\<open>s.split(sep)\<close> for a separator of one character: never the empty list.\<close>

fun py_split :: "char \<Rightarrow> string \<Rightarrow> string list" where
  "py_split sep [] = [[]]"
| "py_split sep (c # cs) =
     (if c = sep then [] # py_split sep cs
      else (case py_split sep cs of
              [] \<Rightarrow> [[c]]
            | piece # pieces \<Rightarrow> (c # piece) # pieces))"

text \<open>\<^verbatim>\<open>sep.join(xs)\<close>.\<close>

fun py_join :: "string \<Rightarrow> string list \<Rightarrow> string" where
  "py_join sep [] = []"
| "py_join sep [x] = x"
| "py_join sep (x # y # ys) = x @ sep @ py_join sep (y # ys)"

definition startswith :: "string \<Rightarrow> string \<Rightarrow> bool" where
  "startswith s p = (take (length p) s = p)"

definition endswith :: "string \<Rightarrow> string \<Rightarrow> bool" where
  "endswith s p = (length p \<le> length s \<and> drop (length s - length p) s = p)"

text \<open>\<^verbatim>\<open>sub in s\<close> on strings.\<close>

fun py_in :: "string \<Rightarrow> string \<Rightarrow> bool" where
  "py_in sub [] = (sub = [])"
| "py_in sub (c # cs) = (startswith (c # cs) sub \<or> py_in sub cs)"

section \<open>The regular expressions of the query compiler\<close>

text \<open>
  \<^verbatim>\<open>[A-Za-z0-9]\<close> and \<^verbatim>\<open>\w\<close> (which decides \<^verbatim>\<open>\b\<close>). With \<^verbatim>\<open>re.IGNORECASE\<close> the class
  \<^verbatim>\<open>[A-Za-z0-9]\<close> is the same set of ASCII characters.
\<close>

definition is_alnum :: "char \<Rightarrow> bool" where
  "is_alnum c = (c \<in> set (ascii_lowercase @ ascii_uppercase @ ascii_digits))"

definition is_word_char :: "char \<Rightarrow> bool" where
  "is_word_char c = (is_alnum c \<or> c = CHR ''_'')"

text \<open>
  \<^verbatim>\<open>\b\<close> at a position: the character before (\<open>prev_word\<close> says whether it is a word
  character; false at the start of the string) and the character after differ in being
  word characters.
\<close>

definition word_boundary :: "bool \<Rightarrow> string \<Rightarrow> bool" where
  "word_boundary prev_word s =
     (prev_word \<noteq> (case s of [] \<Rightarrow> False | c # _ \<Rightarrow> is_word_char c))"

text \<open>A literal of the pattern, matched without regard to case; the text matched and the rest.\<close>

fun match_literal :: "string \<Rightarrow> string \<Rightarrow> (string \<times> string) option" where
  "match_literal [] s = Some ([], s)"
| "match_literal (p # ps) [] = None"
| "match_literal (p # ps) (c # cs) =
     (if upper_char c = upper_char p
      then (case match_literal ps cs of
              None \<Rightarrow> None
            | Some (m, rest) \<Rightarrow> Some (c # m, rest))
      else None)"

text \<open>\<^verbatim>\<open>\b(?:AND|OR)\b\<close> at a position: the alternatives in order, each followed by \<^verbatim>\<open>\b\<close>.\<close>

definition match_keyword :: "string \<Rightarrow> string \<Rightarrow> (string \<times> string) option" where
  "match_keyword kw s =
     (case match_literal kw s of
        None \<Rightarrow> None
      | Some (m, rest) \<Rightarrow> if word_boundary True rest then Some (m, rest) else None)"

definition match_operator :: "bool \<Rightarrow> string \<Rightarrow> (string \<times> string) option" where
  "match_operator prev_word s =
     (if word_boundary prev_word s
      then (case match_keyword ''AND'' s of
              Some r \<Rightarrow> Some r
            | None \<Rightarrow> match_keyword ''OR'' s)
      else None)"

text \<open>\<^verbatim>\<open>"[^"]+"\<close> at a position.\<close>

definition match_quoted :: "string \<Rightarrow> (string \<times> string) option" where
  "match_quoted s =
     (case s of
        [] \<Rightarrow> None
      | c # cs \<Rightarrow>
          if c \<noteq> dq then None
          else (let body = takeWhile (\<lambda>x. x \<noteq> dq) cs;
                    after = dropWhile (\<lambda>x. x \<noteq> dq) cs
                in if body = [] then None
                   else (case after of
                           [] \<Rightarrow> None
                         | q # rest \<Rightarrow> Some (c # body @ [q], rest))))"

text \<open>\<^verbatim>\<open>[()]\<close> at a position.\<close>

definition match_paren :: "string \<Rightarrow> (string \<times> string) option" where
  "match_paren s =
     (case s of
        [] \<Rightarrow> None
      | c # cs \<Rightarrow> if c = CHR ''('' \<or> c = CHR '')'' then Some ([c], cs) else None)"

text \<open>\<^verbatim>\<open>[A-Za-z0-9]+\<close> at a position: the longest run.\<close>

definition match_word :: "string \<Rightarrow> (string \<times> string) option" where
  "match_word s =
     (if takeWhile is_alnum s = [] then None
      else Some (takeWhile is_alnum s, dropWhile is_alnum s))"

text \<open>The four alternatives of the tokenizer's pattern, tried in the pattern's order.\<close>

definition match_token :: "bool \<Rightarrow> string \<Rightarrow> (string \<times> string) option" where
  "match_token prev_word s =
     (case match_quoted s of
        Some r \<Rightarrow> Some r
      | None \<Rightarrow>
          (case match_paren s of
             Some r \<Rightarrow> Some r
           | None \<Rightarrow>
               (case match_operator prev_word s of
                  Some r \<Rightarrow> Some r
                | None \<Rightarrow> match_word s)))"

lemma match_literal_split:
  "match_literal p s = Some (m, rest) \<Longrightarrow> s = m @ rest \<and> length m = length p"
proof (induction p s arbitrary: m rest rule: match_literal.induct)
  case (1 s)
  then show ?case by simp
next
  case (2 p ps)
  then show ?case by simp
next
  case (3 p ps c cs)
  then show ?case by (auto split: if_splits option.splits)
qed

lemma match_keyword_split:
  "match_keyword kw s = Some (m, rest) \<Longrightarrow> s = m @ rest \<and> length m = length kw"
  unfolding match_keyword_def
  by (auto split: option.splits if_splits dest: match_literal_split)

lemma match_operator_split:
  "match_operator pw s = Some (m, rest) \<Longrightarrow> s = m @ rest \<and> m \<noteq> []"
  unfolding match_operator_def
  by (auto split: option.splits if_splits dest!: match_keyword_split)

lemma match_quoted_split:
  "match_quoted s = Some (m, rest) \<Longrightarrow> s = m @ rest \<and> m \<noteq> []"
proof -
  assume a: "match_quoted s = Some (m, rest)"
  then obtain c cs where s: "s = c # cs" and c: "c = dq"
    by (auto simp: match_quoted_def split: list.splits if_splits)
  let ?body = "takeWhile (\<lambda>x. x \<noteq> dq) cs"
  let ?after = "dropWhile (\<lambda>x. x \<noteq> dq) cs"
  from a s c obtain q where after: "?after = q # rest" and m: "m = c # ?body @ [q]"
    by (auto simp: match_quoted_def Let_def split: list.splits if_splits)
  have "cs = ?body @ ?after" by simp
  with after have "cs = ?body @ q # rest" by simp
  with s m show ?thesis by simp
qed

lemma match_paren_split:
  "match_paren s = Some (m, rest) \<Longrightarrow> s = m @ rest \<and> m \<noteq> []"
  by (auto simp: match_paren_def split: list.splits if_splits)

lemma match_word_split:
  "match_word s = Some (m, rest) \<Longrightarrow> s = m @ rest \<and> m \<noteq> []"
  by (auto simp: match_word_def split: if_splits)

lemma match_token_split:
  "match_token pw s = Some (m, rest) \<Longrightarrow> s = m @ rest \<and> m \<noteq> []"
  unfolding match_token_def
  by (auto split: option.splits
      dest: match_quoted_split match_paren_split match_operator_split match_word_split)

lemma match_token_shorter:
  "match_token pw s = Some (m, rest) \<Longrightarrow> length rest < length s"
  by (drule match_token_split) auto

text \<open>
  \<^verbatim>\<open>re.findall(pattern, query, flags=re.IGNORECASE)\<close>: scan from the left; where the
  pattern matches, keep the match and go on after it; where it does not, go on one
  character further.
\<close>

function findall_tokens :: "bool \<Rightarrow> string \<Rightarrow> string list" where
  "findall_tokens prev_word [] = []"
| "findall_tokens prev_word (c # cs) =
     (case match_token prev_word (c # cs) of
        Some (tok, rest) \<Rightarrow> tok # findall_tokens (is_word_char (last tok)) rest
      | None \<Rightarrow> findall_tokens (is_word_char c) cs)"
  by pat_completeness auto
termination
  by (relation "measure (\<lambda>(p, s). length s)") (auto dest: match_token_shorter)

text \<open>\<^verbatim>\<open>re.search(r'\b(AND|OR)\b', keywords, re.IGNORECASE)\<close> finds a match.\<close>

fun search_operator :: "bool \<Rightarrow> string \<Rightarrow> bool" where
  "search_operator prev_word [] = False"
| "search_operator prev_word (c # cs) =
     (match_operator prev_word (c # cs) \<noteq> None \<or> search_operator (is_word_char c) cs)"

section \<open>The query compiler\<close>

definition field_tag_of :: "string \<Rightarrow> string" where
  "field_tag_of search_fields =
     (if search_fields = ''title'' then ''[Title]''
      else if search_fields = ''abstract'' then ''[Abstract]''
      else if search_fields = ''title_abstract'' then ''[Title/Abstract]''
      else '''')"

definition has_parentheses :: "string \<Rightarrow> bool" where
  "has_parentheses keywords = (CHR ''('' \<in> set keywords \<or> CHR '')'' \<in> set keywords)"

definition has_operators :: "string \<Rightarrow> bool" where
  "has_operators keywords = search_operator False keywords"

text \<open>\<^verbatim>\<open>token_upper in ['AND', 'OR', '(', ')']\<close>.\<close>

definition is_structural :: "string \<Rightarrow> bool" where
  "is_structural token = (py_upper token \<in> set [''AND'', ''OR'', ''('', '')''])"

text \<open>
  The inner \<^verbatim>\<open>while j < len(tokens)\<close> loop: the tokens appended to \<^verbatim>\<open>phrase_tokens\<close>
  and the tokens from index \<^verbatim>\<open>j\<close> on when it stops.
\<close>

fun collect_phrase :: "string list \<Rightarrow> string list \<times> string list" where
  "collect_phrase [] = ([], [])"
| "collect_phrase (next_token # rest) =
     (if is_structural next_token then ([], next_token # rest)
      else if startswith next_token [dq] then ([], next_token # rest)
      else (case collect_phrase rest of (phrase_rest, remaining) \<Rightarrow> (next_token # phrase_rest, remaining)))"

lemma collect_phrase_length:
  "collect_phrase ts = (phrase_rest, remaining) \<Longrightarrow> length remaining \<le> length ts"
  by (induction ts arbitrary: phrase_rest remaining) (auto split: if_splits prod.splits)

text \<open>
  The outer \<^verbatim>\<open>while i < len(tokens)\<close> loop, on the tokens from index \<^verbatim>\<open>i\<close> on: the
  elements appended to \<^verbatim>\<open>result_tokens\<close>.
\<close>

function process_tokens :: "string \<Rightarrow> string list \<Rightarrow> string list" where
  "process_tokens field_tag [] = []"
| "process_tokens field_tag (token # rest) =
     (if is_structural token
      then (if py_upper token \<in> set [''AND'', ''OR''] then py_upper token else token)
             # process_tokens field_tag rest
      else if startswith token [dq] \<and> endswith token [dq]
      then (token @ field_tag) # process_tokens field_tag rest
      else (case collect_phrase rest of
              (phrase_rest, remaining) \<Rightarrow>
                (let phrase_tokens = token # phrase_rest;
                     phrase = py_join '' '' phrase_tokens
                 in (if length phrase_tokens > 1
                     then [dq] @ phrase @ [dq] @ field_tag
                     else phrase @ field_tag)
                    # process_tokens field_tag remaining)))"
  by pat_completeness auto
termination
  by (relation "measure (\<lambda>(t, ts). length ts)")
     (auto dest: collect_phrase_length [OF sym] simp: less_Suc_eq_le)

text \<open>The loop over \<^verbatim>\<open>terms\<close> of the simple mode: the element appended for one term.\<close>

definition tag_term :: "string \<Rightarrow> string \<Rightarrow> string" where
  "tag_term field_tag term =
     (if CHR '' '' \<in> set term then [dq] @ term @ [dq] @ field_tag else term @ field_tag)"

definition build_pubmed_query :: "string \<Rightarrow> string \<Rightarrow> string \<Rightarrow> string" where
  "build_pubmed_query keywords search_mode search_fields =
     (let field_tag = field_tag_of search_fields
      in if has_parentheses keywords \<or> has_operators keywords
         then (let query = py_strip keywords;
                   tokens = findall_tokens False query;
                   result_tokens = process_tokens field_tag tokens
               in py_join '' '' result_tokens)
         else (let terms0 = map py_strip
                              (filter (\<lambda>term. py_strip term \<noteq> []) (py_split (CHR '','') keywords));
                   terms = (if length terms0 = 0 then [py_strip keywords] else terms0)
               in if terms = [] \<or> (length terms = 1 \<and> terms ! 0 = []) then ''''
                  else (let tagged_terms = map (tag_term field_tag) terms;
                            operator = '' '' @ py_upper search_mode @ '' ''
                        in py_join operator tagged_terms)))"

text \<open>The parenthesis characters, for the claim on the complex mode.\<close>

definition is_paren :: "char \<Rightarrow> bool" where
  "is_paren c = (c = CHR ''('' \<or> c = CHR '')'')"

text \<open>
  The simple mode in the words of the specification: split the input on commas, trim
  each piece and drop the empty ones; wrap a term that contains a space in double
  quotes and append the field tag; join the tagged terms with the uppercased mode
  between spaces.
\<close>

definition simple_terms :: "string \<Rightarrow> string list" where
  "simple_terms keywords =
     filter (\<lambda>t. t \<noteq> []) (map py_strip (py_split (CHR '','') keywords))"

definition quote_and_tag :: "string \<Rightarrow> string \<Rightarrow> string" where
  "quote_and_tag field_tag term =
     (if CHR '' '' \<in> set term then [dq] @ term @ [dq] else term) @ field_tag"

definition simple_query_spec :: "string \<Rightarrow> string \<Rightarrow> string \<Rightarrow> string" where
  "simple_query_spec keywords search_mode search_fields =
     py_join ('' '' @ py_upper search_mode @ '' '')
       (map (quote_and_tag (field_tag_of search_fields)) (simple_terms keywords))"

section \<open>The element tree\<close>

text \<open>
  \<^verbatim>\<open>xml.etree.ElementTree\<close> is a library: its parser \<^verbatim>\<open>ET.fromstring\<close> is a parameter
  of the model, and its result is the tree below. An element has a tag, a dictionary of
  attributes, a text that is \<^verbatim>\<open>None\<close> when the element is empty or starts with a child
  element, and its children in document order.
\<close>

datatype element =
  Element (tag: string) (attrib: "(string \<times> string) list")
          (text_of: "string option") (children: "element list")

text \<open>\<^verbatim>\<open>Element.iter()\<close>: the element, then its descendants, in document order.\<close>

fun iter :: "element \<Rightarrow> element list" where
  "iter (Element t a x cs) = Element t a x cs # concat (map iter cs)"

definition descendants :: "element \<Rightarrow> element list" where
  "descendants e = concat (map iter (children e))"

text \<open>\<^verbatim>\<open>next(iterator, None)\<close>, which \<^verbatim>\<open>find\<close> applies to the matches.\<close>

definition first_match :: "'a list \<Rightarrow> 'a option" where
  "first_match xs = (case xs of [] \<Rightarrow> None | x # _ \<Rightarrow> Some x)"

text \<open>
  The paths the program uses: \<^verbatim>\<open>findall(".//T")\<close> and \<^verbatim>\<open>find(".//T")\<close>, \<^verbatim>\<open>find("T")\<close>,
  \<^verbatim>\<open>find(".//T1/T2")\<close> and \<^verbatim>\<open>find(".//T[@k='v']")\<close>.
\<close>

definition findall_descendant :: "string \<Rightarrow> element \<Rightarrow> element list" where
  "findall_descendant t e = filter (\<lambda>d. tag d = t) (descendants e)"

definition find_descendant :: "string \<Rightarrow> element \<Rightarrow> element option" where
  "find_descendant t e = first_match (findall_descendant t e)"

definition findall_child :: "string \<Rightarrow> element \<Rightarrow> element list" where
  "findall_child t e = filter (\<lambda>c. tag c = t) (children e)"

definition find_child :: "string \<Rightarrow> element \<Rightarrow> element option" where
  "find_child t e = first_match (findall_child t e)"

definition find_descendant_child :: "string \<Rightarrow> string \<Rightarrow> element \<Rightarrow> element option" where
  "find_descendant_child t1 t2 e =
     first_match (concat (map (findall_child t2) (findall_descendant t1 e)))"

definition find_descendant_attr ::
  "string \<Rightarrow> string \<Rightarrow> string \<Rightarrow> element \<Rightarrow> element option" where
  "find_descendant_attr t k v e =
     first_match (filter (\<lambda>d. map_of (attrib d) k = Some v) (findall_descendant t e))"

section \<open>The record extractor\<close>

datatype py_exn = ParseError | ValidationError

record article =
  article_id :: string
  title :: string
  authors :: "string list"
  abstract :: string
  publication_date :: "string option"
  source :: string
  url :: string
  journal :: "string option"
  is_open_access :: "bool option"
  has_dataset :: "bool option"
  classification_reason :: "string option"
  data_availability :: "string option"
  labels :: "string list option"
  method_types :: "string list option"

text \<open>A value that is a \<^verbatim>\<open>str\<close> or \<^verbatim>\<open>None\<close>, formatted in an f-string.\<close>

definition format_str :: "string option \<Rightarrow> string" where
  "format_str v = (case v of None \<Rightarrow> ''None'' | Some s \<Rightarrow> s)"

text \<open>
  \<^verbatim>\<open>Article(id=..., title=..., ...)\<close>: the class is a pydantic model whose fields
  \<^verbatim>\<open>id\<close>, \<^verbatim>\<open>title\<close> and \<^verbatim>\<open>abstract\<close> are \<^verbatim>\<open>str\<close> and whose field \<^verbatim>\<open>authors\<close> is
  \<^verbatim>\<open>List[str]\<close>, so the constructor raises a validation error when one of them is
  \<^verbatim>\<open>None\<close>. The fields the call does not pass keep their default \<^verbatim>\<open>None\<close>.
\<close>

definition Article ::
  "string option \<Rightarrow> string option \<Rightarrow> string option list \<Rightarrow> string option \<Rightarrow> string option
     \<Rightarrow> string \<Rightarrow> string \<Rightarrow> string option \<Rightarrow> bool \<Rightarrow> py_exn + article" where
  "Article id_arg title_arg authors_arg abstract_arg publication_date_arg source_arg url_arg
           journal_arg is_open_access_arg =
     (case id_arg of
        None \<Rightarrow> Inl ValidationError
      | Some i \<Rightarrow>
          (case title_arg of
             None \<Rightarrow> Inl ValidationError
           | Some t \<Rightarrow>
               (case abstract_arg of
                  None \<Rightarrow> Inl ValidationError
                | Some a \<Rightarrow>
                    if list_ex (\<lambda>x. x = None) authors_arg then Inl ValidationError
                    else Inr \<lparr> article_id = i, title = t, authors = map the authors_arg,
                               abstract = a, publication_date = publication_date_arg,
                               source = source_arg, url = url_arg, journal = journal_arg,
                               is_open_access = Some is_open_access_arg,
                               has_dataset = None, classification_reason = None,
                               data_availability = None, labels = None,
                               method_types = None \<rparr>)))"

text \<open>The loop over the \<^verbatim>\<open>Author\<close> elements: the names appended to \<^verbatim>\<open>authors\<close>.\<close>

fun collect_authors :: "element list \<Rightarrow> string option list" where
  "collect_authors [] = []"
| "collect_authors (author_elem # rest) =
     (case find_child ''LastName'' author_elem of
        None \<Rightarrow> collect_authors rest
      | Some lastname \<Rightarrow>
          (case find_child ''ForeName'' author_elem of
             None \<Rightarrow> text_of lastname # collect_authors rest
           | Some firstname \<Rightarrow>
               Some (format_str (text_of firstname) @ '' '' @ format_str (text_of lastname))
                 # collect_authors rest))"

text \<open>The loop over the \<^verbatim>\<open>PublicationType\<close> elements, from the flag it starts with.\<close>

fun check_pub_types :: "element list \<Rightarrow> bool \<Rightarrow> bool" where
  "check_pub_types [] is_open_access_flag = is_open_access_flag"
| "check_pub_types (pt # rest) is_open_access_flag =
     (if (case text_of pt of
            None \<Rightarrow> False
          | Some t \<Rightarrow> t \<noteq> [] \<and> py_in ''open access'' (py_lower t))
      then check_pub_types rest True
      else check_pub_types rest is_open_access_flag)"

text \<open>The body of the loop over the \<^verbatim>\<open>PubmedArticle\<close> elements, for one element.\<close>

definition extract_article :: "element \<Rightarrow> py_exn + article" where
  "extract_article article_elem =
     (let pmid = (case find_descendant ''PMID'' article_elem of
                    Some pmid_elem \<Rightarrow> text_of pmid_elem
                  | None \<Rightarrow> Some ''unknown'');
          title_val = (case find_descendant ''ArticleTitle'' article_elem of
                         Some title_elem \<Rightarrow> text_of title_elem
                       | None \<Rightarrow> Some ''No title'');
          abstract_val = (case find_descendant ''AbstractText'' article_elem of
                            Some abstract_elem \<Rightarrow> text_of abstract_elem
                          | None \<Rightarrow> Some ''No abstract available'');
          authors_val = collect_authors (findall_descendant ''Author'' article_elem);
          pub_date = (case find_descendant_child ''PubDate'' ''Year'' article_elem of
                        Some pub_date_elem \<Rightarrow> text_of pub_date_elem
                      | None \<Rightarrow> None);
          journal_elem = (case find_descendant_child ''Journal'' ''Title'' article_elem of
                            None \<Rightarrow> find_descendant_child ''Journal'' ''ISOAbbreviation'' article_elem
                          | Some j \<Rightarrow> Some j);
          journal_val = (case journal_elem of Some j \<Rightarrow> text_of j | None \<Rightarrow> None);
          oa_elem = find_descendant_attr ''ArticleId'' ''IdType'' ''pmc'' article_elem;
          is_open_access_val =
            check_pub_types (findall_descendant ''PublicationType'' article_elem)
              (oa_elem \<noteq> None)
      in Article pmid title_val authors_val abstract_val pub_date ''pubmed''
           (''https://pubmed.ncbi.nlm.nih.gov/'' @ format_str pmid @ ''/'')
           journal_val is_open_access_val)"

text \<open>
  The loop over the \<^verbatim>\<open>PubmedArticle\<close> elements inside the \<^verbatim>\<open>try\<close>: the list
  \<^verbatim>\<open>articles\<close> when the loop ends, and the exception that ended it, if one did.
\<close>

fun extract_loop :: "element list \<Rightarrow> article list \<Rightarrow> article list \<times> py_exn option" where
  "extract_loop [] articles = (articles, None)"
| "extract_loop (article_elem # rest) articles =
     (case extract_article article_elem of
        Inl e \<Rightarrow> (articles, Some e)
      | Inr a \<Rightarrow> extract_loop rest (articles @ [a]))"

text \<open>
  \<^verbatim>\<open>parse_pubmed_xml(xml_text, pmids)\<close>. The handler \<^verbatim>\<open>except Exception\<close> catches the
  parser's error and the validation error alike, prints a message and falls through to
  \<^verbatim>\<open>return articles\<close>; \<open>Inl\<close> would be an exception that leaves the function.
\<close>

definition parse_pubmed_xml ::
  "(string \<Rightarrow> py_exn + element) \<Rightarrow> string \<Rightarrow> string list \<Rightarrow> py_exn + article list" where
  "parse_pubmed_xml fromstring xml_text pmids =
     (case fromstring xml_text of
        Inl e \<Rightarrow> Inr []
      | Inr root \<Rightarrow> Inr (fst (extract_loop (findall_descendant ''PubmedArticle'' root) [])))"

text \<open>
  The open-access rule in the words of the specification: an \<^verbatim>\<open>ArticleId\<close> element with
  the PMC identifier type is present, or the text of some \<^verbatim>\<open>PublicationType\<close> element
  contains \<^verbatim>\<open>open access\<close> in any case. The rule is written without the program's
  \<^verbatim>\<open>lower\<close> and \<^verbatim>\<open>in\<close>: two characters are the same letter when they are equal or one
  is the capital of the other, and a text contains a phrase in any case when one of its
  contiguous sublists (\<^const>\<open>sublists\<close> lists them) matches the phrase letter by letter.
\<close>

definition same_letter :: "char \<Rightarrow> char \<Rightarrow> bool" where
  "same_letter c d =
     (c = d \<or> (c, d) \<in> set (zip ascii_uppercase ascii_lowercase)
            \<or> (d, c) \<in> set (zip ascii_uppercase ascii_lowercase))"

definition contains_ignoring_case :: "string \<Rightarrow> string \<Rightarrow> bool" where
  "contains_ignoring_case t phrase =
     list_ex (\<lambda>w. list_all2 same_letter w phrase) (sublists t)"

definition has_pmc_id :: "element \<Rightarrow> bool" where
  "has_pmc_id e =
     list_ex (\<lambda>d. tag d = ''ArticleId'' \<and> map_of (attrib d) ''IdType'' = Some ''pmc'')
       (descendants e)"

definition has_open_access_type :: "element \<Rightarrow> bool" where
  "has_open_access_type e =
     list_ex (\<lambda>d. tag d = ''PublicationType''
                 \<and> (case text_of d of
                       None \<Rightarrow> False
                     | Some t \<Rightarrow> contains_ignoring_case t ''open access''))
       (descendants e)"

section \<open>Three sample documents\<close>

text \<open>
  Three documents as PubMed returns them, each with the tree \<^verbatim>\<open>ET.fromstring\<close> builds
  for it, and a stand-in for the parser that knows these three texts and rejects every
  other text. In the first, the article has a PMC identifier and no publication type
  that mentions open access. In the second, the title element of the first article is
  empty, so its text is \<^verbatim>\<open>None\<close>. In the third, no article has a PMC identifier; the first
  article has a publication type that mentions open access in capitals, the second has
  none that does.
\<close>

definition leaf :: "string \<Rightarrow> string \<Rightarrow> element" where
  "leaf t x = Element t [] (Some x) []"

definition pmc_xml :: string where
  \<open>pmc_xml =
     ''<PubmedArticleSet><PubmedArticle><MedlineCitation><PMID>31</PMID><Article>''
     @ ''<ArticleTitle>Lipids in plasma</ArticleTitle><PublicationTypeList>''
     @ ''<PublicationType>Journal Article</PublicationType></PublicationTypeList>''
     @ ''</Article></MedlineCitation><PubmedData><ArticleIdList>''
     @ ''<ArticleId IdType="pubmed">31</ArticleId>''
     @ ''<ArticleId IdType="pmc">PMC7</ArticleId>''
     @ ''</ArticleIdList></PubmedData></PubmedArticle></PubmedArticleSet>''\<close>

definition pmc_document :: element where
  "pmc_document =
     Element ''PubmedArticleSet'' [] None
       [Element ''PubmedArticle'' [] None
          [Element ''MedlineCitation'' [] None
             [leaf ''PMID'' ''31'',
              Element ''Article'' [] None
                [leaf ''ArticleTitle'' ''Lipids in plasma'',
                 Element ''PublicationTypeList'' [] None
                   [leaf ''PublicationType'' ''Journal Article'']]],
           Element ''PubmedData'' [] None
             [Element ''ArticleIdList'' [] None
                [Element ''ArticleId'' [(''IdType'', ''pubmed'')] (Some ''31'') [],
                 Element ''ArticleId'' [(''IdType'', ''pmc'')] (Some ''PMC7'') []]]]]"

definition textless_title_xml :: string where
  "textless_title_xml =
     ''<PubmedArticleSet><PubmedArticle><MedlineCitation><PMID>1</PMID><Article>''
     @ ''<ArticleTitle/></Article></MedlineCitation></PubmedArticle>''
     @ ''<PubmedArticle><MedlineCitation><PMID>2</PMID><Article>''
     @ ''<ArticleTitle>Second</ArticleTitle></Article></MedlineCitation></PubmedArticle>''
     @ ''</PubmedArticleSet>''"

definition textless_title_document :: element where
  "textless_title_document =
     Element ''PubmedArticleSet'' [] None
       [Element ''PubmedArticle'' [] None
          [Element ''MedlineCitation'' [] None
             [leaf ''PMID'' ''1'',
              Element ''Article'' [] None
                [Element ''ArticleTitle'' [] None []]]],
        Element ''PubmedArticle'' [] None
          [Element ''MedlineCitation'' [] None
             [leaf ''PMID'' ''2'',
              Element ''Article'' [] None
                [leaf ''ArticleTitle'' ''Second'']]]]"

definition publication_type_xml :: string where
  \<open>publication_type_xml =
     ''<PubmedArticleSet><PubmedArticle><MedlineCitation><PMID>41</PMID><Article>''
     @ ''<ArticleTitle>Open data</ArticleTitle><PublicationTypeList>''
     @ ''<PublicationType>Journal Article</PublicationType>''
     @ ''<PublicationType>OPEN ACCESS Article</PublicationType></PublicationTypeList>''
     @ ''</Article></MedlineCitation><PubmedData><ArticleIdList>''
     @ ''<ArticleId IdType="pubmed">41</ArticleId>''
     @ ''</ArticleIdList></PubmedData></PubmedArticle>''
     @ ''<PubmedArticle><MedlineCitation><PMID>42</PMID><Article>''
     @ ''<ArticleTitle>Closed data</ArticleTitle><PublicationTypeList>''
     @ ''<PublicationType>Open Acces Review</PublicationType></PublicationTypeList>''
     @ ''</Article></MedlineCitation><PubmedData><ArticleIdList>''
     @ ''<ArticleId IdType="pubmed">42</ArticleId>''
     @ ''</ArticleIdList></PubmedData></PubmedArticle></PubmedArticleSet>''\<close>

definition publication_type_document :: element where
  "publication_type_document =
     Element ''PubmedArticleSet'' [] None
       [Element ''PubmedArticle'' [] None
          [Element ''MedlineCitation'' [] None
             [leaf ''PMID'' ''41'',
              Element ''Article'' [] None
                [leaf ''ArticleTitle'' ''Open data'',
                 Element ''PublicationTypeList'' [] None
                   [leaf ''PublicationType'' ''Journal Article'',
                    leaf ''PublicationType'' ''OPEN ACCESS Article'']]],
           Element ''PubmedData'' [] None
             [Element ''ArticleIdList'' [] None
                [Element ''ArticleId'' [(''IdType'', ''pubmed'')] (Some ''41'') []]]],
        Element ''PubmedArticle'' [] None
          [Element ''MedlineCitation'' [] None
             [leaf ''PMID'' ''42'',
              Element ''Article'' [] None
                [leaf ''ArticleTitle'' ''Closed data'',
                 Element ''PublicationTypeList'' [] None
                   [leaf ''PublicationType'' ''Open Acces Review'']]],
           Element ''PubmedData'' [] None
             [Element ''ArticleIdList'' [] None
                [Element ''ArticleId'' [(''IdType'', ''pubmed'')] (Some ''42'') []]]]]"

definition sample_fromstring :: "string \<Rightarrow> py_exn + element" where
  "sample_fromstring xml_text =
     (if xml_text = pmc_xml then Inr pmc_document
      else if xml_text = textless_title_xml then Inr textless_title_document
      else if xml_text = publication_type_xml then Inr publication_type_document
      else Inl ParseError)"

section \<open>The responses built from the language model's answer\<close>

text \<open>
  The value \<^verbatim>\<open>json.loads\<close> returns: a dictionary is an association list, read by its
  first entry for a key.
\<close>

datatype json =
  JNull | JBool bool | JNumber int | JString string | JArray "json list"
  | JObject "(string \<times> json) list"

datatype http_error = HTTPException nat

text \<open>\<^verbatim>\<open>d.get(key, default)\<close>.\<close>

definition dict_get :: "(string \<times> json) list \<Rightarrow> string \<Rightarrow> json \<Rightarrow> json" where
  "dict_get d key default_value =
     (case map_of d key of None \<Rightarrow> default_value | Some v \<Rightarrow> v)"

text \<open>
  The end of \<^verbatim>\<open>generate_query\<close>, from the parsed content of the answer on: the
  dictionary returned. A content that is no dictionary has no \<^verbatim>\<open>get\<close>; the handler turns
  the error into the status 500.
\<close>

definition generate_query_response :: "(string \<times> json) list \<Rightarrow> (string \<times> json) list" where
  "generate_query_response query_result =
     [(''pubmed_query'', dict_get query_result ''pubmed_query'' (JString '''')),
      (''extracted_concepts'', dict_get query_result ''extracted_concepts'' (JArray [])),
      (''synonyms_used'', dict_get query_result ''synonyms_used'' (JObject [])),
      (''explanation'', dict_get query_result ''explanation'' (JString ''''))]"

definition generate_query :: "json \<Rightarrow> http_error + (string \<times> json) list" where
  "generate_query content =
     (case content of
        JObject query_result \<Rightarrow> Inr (generate_query_response query_result)
      | _ \<Rightarrow> Inl (HTTPException 500))"

text \<open>The end of \<^verbatim>\<open>classify_abstract\<close>, likewise.\<close>

definition classify_response ::
  "string \<Rightarrow> (string \<times> json) list \<Rightarrow> (string \<times> json) list" where
  "classify_response request_article_id classification =
     [(''article_id'', JString request_article_id),
      (''has_dataset'', dict_get classification ''has_dataset'' (JBool False)),
      (''confidence'', dict_get classification ''confidence'' (JString ''low'')),
      (''reason'', dict_get classification ''reason'' (JString ''Unable to determine'')),
      (''data_availability'', dict_get classification ''data_availability'' JNull),
      (''labels'', dict_get classification ''labels'' (JArray [])),
      (''method_types'', dict_get classification ''method_types'' (JArray []))]"

definition classify_abstract :: "string \<Rightarrow> json \<Rightarrow> http_error + (string \<times> json) list" where
  "classify_abstract request_article_id content =
     (case content of
        JObject classification \<Rightarrow> Inr (classify_response request_article_id classification)
      | _ \<Rightarrow> Inl (HTTPException 500))"

section \<open>The query compiler: lemmas\<close>

lemma upper_char_cases:
  "(c \<notin> set ascii_lowercase \<and> upper_char c = c) \<or>
   (c \<in> set ascii_lowercase \<and> upper_char c \<in> set ascii_uppercase)"
proof (cases "map_of (zip ascii_lowercase ascii_uppercase) c")
  case None
  have "length ascii_lowercase = length ascii_uppercase"
    by (simp add: ascii_lowercase_def ascii_uppercase_def)
  with None have "c \<notin> set ascii_lowercase"
    by (simp add: map_of_zip_is_None)
  with None show ?thesis by (simp add: upper_char_def)
next
  case (Some u)
  then have "(c, u) \<in> set (zip ascii_lowercase ascii_uppercase)"
    by (rule map_of_SomeD)
  then have "c \<in> set ascii_lowercase" "u \<in> set ascii_uppercase"
    by (auto dest: set_zip_leftD set_zip_rightD)
  with Some show ?thesis by (simp add: upper_char_def)
qed

lemma is_paren_upper_char: "is_paren (upper_char c) = is_paren c"
proof -
  have a: "\<not> is_paren x" if "x \<in> set ascii_uppercase" for x
    using that by (auto simp: is_paren_def ascii_uppercase_def)
  have b: "\<not> is_paren x" if "x \<in> set ascii_lowercase" for x
    using that by (auto simp: is_paren_def ascii_lowercase_def)
  from upper_char_cases [of c] show ?thesis using a b by auto
qed

lemma parens_py_upper: "filter is_paren (py_upper t) = [] \<longleftrightarrow> filter is_paren t = []"
  by (simp add: py_upper_def filter_map o_def is_paren_upper_char)

lemma parens_join:
  "filter is_paren sep = [] \<Longrightarrow> filter is_paren (py_join sep xs) = filter is_paren (concat xs)"
  by (induction sep xs rule: py_join.induct) simp_all

lemma collect_phrase_split:
  "collect_phrase ts = (phrase_rest, remaining) \<Longrightarrow> ts = phrase_rest @ remaining"
  by (induction ts arbitrary: phrase_rest remaining) (auto split: if_splits prod.splits)

lemma parens_operator_word:
  assumes "py_upper token \<in> set [''AND'', ''OR'']"
  shows "filter is_paren (py_upper token) = []" "filter is_paren token = []"
proof -
  from assms show a: "filter is_paren (py_upper token) = []"
    by (auto simp: is_paren_def)
  then show "filter is_paren token = []" by (simp add: parens_py_upper)
qed

lemma parens_process_tokens:
  assumes "filter is_paren field_tag = []"
  shows "filter is_paren (concat (process_tokens field_tag ts)) = filter is_paren (concat ts)"
  using assms
proof (induction field_tag ts rule: process_tokens.induct)
  case (1 field_tag)
  then show ?case by simp
next
  case (2 field_tag token rest)
  show ?case
  proof (cases "is_structural token")
    case True
    with 2 show ?thesis by (simp add: parens_operator_word del: set_simps)
  next
    case ns: False
    show ?thesis
    proof (cases "startswith token [dq] \<and> endswith token [dq]")
      case True
      with ns 2 show ?thesis by simp
    next
      case nq: False
      obtain phrase_rest remaining where cp: "collect_phrase rest = (phrase_rest, remaining)"
        by (cases "collect_phrase rest")
      then have rest: "rest = phrase_rest @ remaining" by (rule collect_phrase_split)
      define phrase where "phrase = py_join '' '' (token # phrase_rest)"
      define out where "out = (if length (token # phrase_rest) > 1
                                then [dq] @ phrase @ [dq] @ field_tag else phrase @ field_tag)"
      have pt: "process_tokens field_tag (token # rest)
                  = out # process_tokens field_tag remaining"
        using ns nq cp by (auto simp add: out_def phrase_def Let_def simp del: py_join.simps)
      have ih: "filter is_paren (concat (process_tokens field_tag remaining))
                  = filter is_paren (concat remaining)"
        using "2.IH"(3) [OF ns nq cp [symmetric] refl refl] "2.prems" by simp
      have j: "filter is_paren phrase = filter is_paren (concat (token # phrase_rest))"
        unfolding phrase_def by (rule parens_join) (simp add: is_paren_def)
      have d: "\<not> is_paren dq" by (simp add: is_paren_def dq_def)
      have o: "filter is_paren out = filter is_paren (concat (token # phrase_rest))"
        using j d "2.prems" by (simp add: out_def)
      have "filter is_paren (concat (process_tokens field_tag (token # rest)))
              = filter is_paren out @ filter is_paren (concat remaining)"
        unfolding pt by (simp add: ih)
      also have "\<dots> = filter is_paren (concat (token # rest))"
        by (simp add: o rest)
      finally show ?thesis .
    qed
  qed
qed

lemma parens_findall_tokens:
  "filter is_paren (concat (findall_tokens pw s)) = filter is_paren s"
proof (induction pw s rule: findall_tokens.induct)
  case (1 prev_word)
  then show ?case by simp
next
  case (2 prev_word c cs)
  show ?case
  proof (cases "match_token prev_word (c # cs)")
    case None
    then have "match_paren (c # cs) = None"
      by (simp add: match_token_def split: option.splits)
    then have "\<not> is_paren c"
      by (simp add: match_paren_def is_paren_def split: if_splits)
    with None 2 show ?thesis by simp
  next
    case (Some r)
    obtain tok rest where r: "r = (tok, rest)" by (cases r)
    with Some have "c # cs = tok @ rest" by (auto dest: match_token_split)
    then have "filter is_paren (c # cs) = filter is_paren tok @ filter is_paren rest"
      by (metis filter_append)
    moreover have "filter is_paren (concat (findall_tokens (is_word_char (last tok)) rest))
                     = filter is_paren rest"
      using 2 Some r by simp
    moreover have "findall_tokens prev_word (c # cs)
                     = tok # findall_tokens (is_word_char (last tok)) rest"
      using Some r by simp
    ultimately show ?thesis by simp
  qed
qed

lemma parens_py_strip: "filter is_paren (py_strip s) = filter is_paren s"
proof -
  have a: "filter is_paren (dropWhile is_space xs) = filter is_paren xs" for xs
    by (induction xs) (auto simp: is_paren_def is_space_def)
  show ?thesis
    unfolding py_strip_def
    by (simp add: rev_filter [symmetric] a)
qed

lemma parens_field_tag_of: "filter is_paren (field_tag_of sf) = []"
  by (simp add: field_tag_of_def is_paren_def)

lemma is_space_not_lower: "is_space c \<Longrightarrow> c \<notin> set ascii_lowercase"
  by (auto simp: is_space_def ascii_lowercase_def)

lemma upper_char_space: "is_space c \<Longrightarrow> upper_char c = c"
  using upper_char_cases [of c] by (auto dest: is_space_not_lower)

lemma match_keyword_space:
  assumes "is_space c" "p \<in> set ascii_uppercase"
  shows "match_keyword (p # ps) (c # cs) = None"
proof -
  have "p \<notin> set ascii_lowercase"
    using assms(2) by (auto simp: ascii_uppercase_def ascii_lowercase_def)
  then have "upper_char p = p" using upper_char_cases [of p] by auto
  moreover have "c \<noteq> p"
    using assms by (auto simp: is_space_def ascii_uppercase_def)
  ultimately show ?thesis
    using assms(1) by (simp add: match_keyword_def upper_char_space)
qed

lemma match_operator_space: "is_space c \<Longrightarrow> match_operator pw (c # cs) = None"
  by (simp add: match_operator_def match_keyword_space ascii_uppercase_def)

lemma search_operator_blank: "list_all is_space s \<Longrightarrow> \<not> search_operator pw s"
  by (induction s arbitrary: pw) (simp_all add: match_operator_space)

lemma blank_without:
  assumes "list_all is_space s" "\<not> is_space c"
  shows "c \<notin> set s"
  using assms by (auto simp: list_all_iff)

lemma has_parentheses_blank:
  assumes "list_all is_space s"
  shows "\<not> has_parentheses s"
proof -
  have "\<not> is_space (CHR ''('')" "\<not> is_space (CHR '')'')"
    by (simp_all add: is_space_def)
  then show ?thesis
    using assms by (simp add: has_parentheses_def blank_without)
qed

lemma py_split_no_sep: "sep \<notin> set s \<Longrightarrow> py_split sep s = [s]"
  by (induction s) auto

lemma py_strip_blank: "list_all is_space s \<Longrightarrow> py_strip s = []"
proof -
  assume "list_all is_space s"
  then show ?thesis by (auto simp: py_strip_def list_all_iff dest: set_dropWhileD)
qed

lemma tag_term_eq: "tag_term = quote_and_tag"
  by (intro ext) (simp add: tag_term_def quote_and_tag_def)

lemma terms_comprehension:
  "map py_strip (filter (\<lambda>term. py_strip term \<noteq> []) pieces)
     = filter (\<lambda>t. t \<noteq> []) (map py_strip pieces)"
  by (simp add: filter_map o_def)

lemma simple_terms_nonempty: "t \<in> set (simple_terms keywords) \<Longrightarrow> t \<noteq> []"
  by (simp add: simple_terms_def)

lemma build_pubmed_query_simple_mode:
  assumes "\<not> has_parentheses keywords" "\<not> has_operators keywords"
  shows "build_pubmed_query keywords search_mode search_fields =
           (if simple_terms keywords = []
            then (if py_strip keywords = [] then ''''
                  else quote_and_tag (field_tag_of search_fields) (py_strip keywords))
            else simple_query_spec keywords search_mode search_fields)"
proof (cases "simple_terms keywords = []")
  case True
  then show ?thesis
    using assms
    by (simp add: build_pubmed_query_def terms_comprehension simple_terms_def [symmetric]
        tag_term_eq)
next
  case False
  then obtain t ts where ts: "simple_terms keywords = t # ts"
    by (cases "simple_terms keywords") auto
  then have "t \<noteq> []"
    using simple_terms_nonempty [of t "keywords"] by simp
  with ts show ?thesis
    using assms
    by (simp add: build_pubmed_query_def terms_comprehension simple_terms_def [symmetric]
        tag_term_eq simple_query_spec_def Let_def)
qed

lemma quote_and_tag_no_space:
  "CHR '' '' \<notin> set t \<Longrightarrow> quote_and_tag field_tag t = t @ field_tag"
  by (simp add: quote_and_tag_def)

section \<open>The record extractor and the responses: lemmas\<close>

lemma first_match_some: "(first_match xs \<noteq> None) = (xs \<noteq> [])"
  by (cases xs) (simp_all add: first_match_def)

lemma filter_filter_ex: "(filter P (filter Q xs) \<noteq> []) = list_ex (\<lambda>d. Q d \<and> P d) xs"
  by (induction xs) auto

lemma first_match_ex: "(\<exists>y. first_match xs = Some y) = (xs \<noteq> [])"
  by (cases xs) (simp_all add: first_match_def)

lemma find_pmc_id:
  "(find_descendant_attr ''ArticleId'' ''IdType'' ''pmc'' e \<noteq> None) = has_pmc_id e"
  by (auto simp add: find_descendant_attr_def findall_descendant_def first_match_ex
      has_pmc_id_def list_ex_iff filter_empty_conv)

lemma find_pmc_id_ex:
  "(\<exists>y. find_descendant_attr ''ArticleId'' ''IdType'' ''pmc'' e = Some y) = has_pmc_id e"
  using find_pmc_id [of e] by simp

lemma distinct_ascii_uppercase: "distinct ascii_uppercase"
  by (simp add: ascii_uppercase_def)

lemma distinct_ascii_lowercase: "distinct ascii_lowercase"
  by (simp add: ascii_lowercase_def)

lemma length_ascii_cases: "length ascii_uppercase = length ascii_lowercase"
  by (simp add: ascii_lowercase_def ascii_uppercase_def)

lemma ascii_cases_disjoint: "c \<in> set ascii_lowercase \<Longrightarrow> c \<notin> set ascii_uppercase"
  by (auto simp: ascii_lowercase_def ascii_uppercase_def)

lemma lower_char_outside: "c \<notin> set ascii_uppercase \<Longrightarrow> lower_char c = c"
  by (simp add: lower_char_def map_of_zip_is_None [OF length_ascii_cases, THEN iffD2])

lemma lower_char_pair:
  "(c, l) \<in> set (zip ascii_uppercase ascii_lowercase) \<Longrightarrow> lower_char c = l"
proof -
  assume m: "(c, l) \<in> set (zip ascii_uppercase ascii_lowercase)"
  have "distinct (map fst (zip ascii_uppercase ascii_lowercase))"
    by (simp add: length_ascii_cases distinct_ascii_uppercase)
  from map_of_is_SomeI [OF this m] show ?thesis
    by (simp add: lower_char_def)
qed

lemma lower_char_inside:
  "c \<in> set ascii_uppercase \<Longrightarrow> (c, lower_char c) \<in> set (zip ascii_uppercase ascii_lowercase)"
proof -
  assume "c \<in> set ascii_uppercase"
  then obtain l where "map_of (zip ascii_uppercase ascii_lowercase) c = Some l"
    using map_of_zip_is_None [OF length_ascii_cases, of c] by auto
  then show ?thesis
    by (auto simp: lower_char_def dest: map_of_SomeD)
qed

lemma zip_cases_injective:
  assumes "(c, l) \<in> set (zip ascii_uppercase ascii_lowercase)"
    and "(d, l) \<in> set (zip ascii_uppercase ascii_lowercase)"
  shows "c = d"
proof -
  from assms obtain i j where
    i: "i < length ascii_lowercase" "ascii_uppercase ! i = c" "ascii_lowercase ! i = l"
    and j: "j < length ascii_lowercase" "ascii_uppercase ! j = d" "ascii_lowercase ! j = l"
    by (auto simp: in_set_zip length_ascii_cases)
  from i(3) j(3) have "ascii_lowercase ! i = ascii_lowercase ! j" by simp
  with i(1) j(1) have "i = j"
    by (simp add: nth_eq_iff_index_eq [OF distinct_ascii_lowercase])
  with i j show ?thesis by simp
qed

lemma same_letter_lower_char: "same_letter c d = (lower_char c = lower_char d)"
proof
  assume "same_letter c d"
  then consider "c = d" | "(c, d) \<in> set (zip ascii_uppercase ascii_lowercase)"
    | "(d, c) \<in> set (zip ascii_uppercase ascii_lowercase)"
    by (auto simp: same_letter_def)
  then show "lower_char c = lower_char d"
  proof cases
    case 1
    then show ?thesis by simp
  next
    case 2
    then have "d \<in> set ascii_lowercase" by (rule set_zip_rightD)
    then have "lower_char d = d" by (simp add: lower_char_outside ascii_cases_disjoint)
    with lower_char_pair [OF 2] show ?thesis by simp
  next
    case 3
    then have "c \<in> set ascii_lowercase" by (rule set_zip_rightD)
    then have "lower_char c = c" by (simp add: lower_char_outside ascii_cases_disjoint)
    with lower_char_pair [OF 3] show ?thesis by simp
  qed
next
  assume e: "lower_char c = lower_char d"
  show "same_letter c d"
  proof (cases "c \<in> set ascii_uppercase")
    case True
    note c = lower_char_inside [OF True]
    show ?thesis
    proof (cases "d \<in> set ascii_uppercase")
      case True
      from lower_char_inside [OF True] e c have "c = d"
        by (auto intro: zip_cases_injective)
      then show ?thesis by (simp add: same_letter_def)
    next
      case False
      with e c show ?thesis by (simp add: same_letter_def lower_char_outside)
    qed
  next
    case False
    show ?thesis
    proof (cases "d \<in> set ascii_uppercase")
      case True
      from lower_char_inside [OF True] e False show ?thesis
        by (simp add: same_letter_def lower_char_outside)
    next
      case False
      with e \<open>c \<notin> set ascii_uppercase\<close> show ?thesis
        by (simp add: same_letter_def lower_char_outside)
    qed
  qed
qed

lemma startswith_prefix: "startswith s p = prefix p s"
  by (auto simp: startswith_def prefix_def) (metis append_take_drop_id)

lemma py_in_sublist: "py_in sub s = sublist sub s"
  by (induction s) (simp_all add: sublist_Cons_right startswith_prefix)

lemma map_lower_char_eq:
  "(map lower_char w = map lower_char phrase) = list_all2 same_letter w phrase"
proof -
  have "(map lower_char w = map lower_char phrase)
          = list_all2 (=) (map lower_char w) (map lower_char phrase)"
    by (simp add: list.rel_eq)
  also have "\<dots> = list_all2 (\<lambda>c d. lower_char c = lower_char d) w phrase"
    by (simp add: list.rel_map)
  also have "\<dots> = list_all2 same_letter w phrase"
    by (simp add: same_letter_lower_char [abs_def])
  finally show ?thesis .
qed

lemma py_in_py_lower:
  "py_in (py_lower phrase) (py_lower t) = contains_ignoring_case t phrase"
proof
  assume "py_in (py_lower phrase) (py_lower t)"
  then have "sublist (map lower_char phrase) (map lower_char t)"
    by (simp add: py_in_sublist py_lower_def)
  then obtain w where "sublist w t" "map lower_char phrase = map lower_char w"
    by (auto dest: sublist_map_rightE)
  then show "contains_ignoring_case t phrase"
    by (auto simp: contains_ignoring_case_def list_ex_iff map_lower_char_eq [symmetric])
next
  assume "contains_ignoring_case t phrase"
  then obtain w where w: "sublist w t" "map lower_char w = map lower_char phrase"
    by (auto simp: contains_ignoring_case_def list_ex_iff map_lower_char_eq [symmetric])
  from w(1) have "sublist (map lower_char w) (map lower_char t)"
    by (rule map_mono_sublist)
  with w(2) show "py_in (py_lower phrase) (py_lower t)"
    by (simp add: py_in_sublist py_lower_def)
qed

lemma contains_ignoring_case_iff:
  "contains_ignoring_case t phrase
     = (\<exists>pre w post. t = pre @ w @ post \<and> list_all2 same_letter w phrase)"
proof
  assume "contains_ignoring_case t phrase"
  then obtain w where "sublist w t" "list_all2 same_letter w phrase"
    by (auto simp: contains_ignoring_case_def list_ex_iff)
  then show "\<exists>pre w post. t = pre @ w @ post \<and> list_all2 same_letter w phrase"
    unfolding sublist_def by blast
next
  assume "\<exists>pre w post. t = pre @ w @ post \<and> list_all2 same_letter w phrase"
  then obtain pre w post where "t = pre @ w @ post" "list_all2 same_letter w phrase"
    by blast
  then have "sublist w t" "list_all2 same_letter w phrase"
    by simp_all
  then show "contains_ignoring_case t phrase"
    unfolding contains_ignoring_case_def list_ex_iff by (intro bexI [of _ w]) simp_all
qed

lemma py_lower_open_access: "py_lower ''open access'' = ''open access''"
  by code_simp

lemma py_in_nonempty: "py_in ''open access'' (py_lower t) \<Longrightarrow> t \<noteq> []"
  by (cases t) (simp_all add: py_lower_def)

lemma check_pub_types_ex:
  "check_pub_types pts flag =
     (flag \<or> list_ex (\<lambda>pt. case text_of pt of
                             None \<Rightarrow> False
                           | Some t \<Rightarrow> py_in ''open access'' (py_lower t)) pts)"
proof (induction pts arbitrary: flag)
  case Nil
  then show ?case by simp
next
  case (Cons pt pts)
  show ?case
  proof (cases "text_of pt")
    case None
    then show ?thesis by (simp add: Cons.IH)
  next
    case (Some t)
    then show ?thesis
      using py_in_nonempty [of t] by (auto simp: Cons.IH)
  qed
qed

lemma list_ex_filter: "list_ex P (filter Q xs) = list_ex (\<lambda>d. Q d \<and> P d) xs"
  by (induction xs) auto

lemma check_pub_types_spec:
  "check_pub_types (findall_descendant ''PublicationType'' e) flag
     = (flag \<or> has_open_access_type e)"
proof -
  have r: "contains_ignoring_case t ''open access'' = py_in ''open access'' (py_lower t)" for t
    using py_in_py_lower [of "''open access''" t] by (simp add: py_lower_open_access)
  show ?thesis
    unfolding has_open_access_type_def r
    by (simp add: check_pub_types_ex findall_descendant_def list_ex_filter)
qed

lemma Article_open_access:
  "Article i t au ab pd s u j oa = Inr a \<Longrightarrow> is_open_access a = Some oa"
  by (auto simp: Article_def split: option.splits if_splits)

lemma extract_article_open_access:
  assumes "extract_article e = Inr a"
  shows "is_open_access a = Some (has_pmc_id e \<or> has_open_access_type e)"
  using assms
  unfolding extract_article_def Let_def
  by (auto dest!: Article_open_access simp: check_pub_types_spec find_pmc_id_ex)

lemma extract_loop_prefix:
  "extract_loop es acc = (arts, ex) \<Longrightarrow>
     \<exists>new. arts = acc @ new \<and> length new \<le> length es
            \<and> (\<forall>i<length new. extract_article (es ! i) = Inr (new ! i))"
proof (induction es arbitrary: acc)
  case Nil
  then show ?case by simp
next
  case (Cons article_elem rest)
  show ?case
  proof (cases "extract_article article_elem")
    case (Inl e)
    with Cons.prems show ?thesis by simp
  next
    case (Inr a)
    with Cons.prems have "extract_loop rest (acc @ [a]) = (arts, ex)" by simp
    from Cons.IH [OF this] obtain new where
      n: "arts = (acc @ [a]) @ new" "length new \<le> length rest"
         "\<forall>i<length new. extract_article (rest ! i) = Inr (new ! i)"
      by blast
    have "\<forall>i<length (a # new). extract_article ((article_elem # rest) ! i) = Inr ((a # new) ! i)"
    proof (intro allI impI)
      fix i assume "i < length (a # new)"
      then show "extract_article ((article_elem # rest) ! i) = Inr ((a # new) ! i)"
        using n(3) Inr by (cases i) simp_all
    qed
    with n(1,2) show ?thesis
      by (intro exI [of _ "a # new"]) simp
  qed
qed

lemma dict_get_missing: "map_of d key = None \<Longrightarrow> dict_get d key v = v"
  by (simp add: dict_get_def)

section \<open>The query compiler: claims\<close>

text \<open>
  Claim C2. \<^verbatim>\<open>build_pubmed_query("(SRM 1950 OR SRM1950) AND HILIC", "AND", "title")\<close>
  is the seven tokens \<^verbatim>\<open>(\<close>, \<^verbatim>\<open>"SRM 1950"[Title]\<close>, \<^verbatim>\<open>OR\<close>, \<^verbatim>\<open>SRM1950[Title]\<close>, \<^verbatim>\<open>)\<close>,
  \<^verbatim>\<open>AND\<close>, \<^verbatim>\<open>HILIC[Title]\<close> joined by single spaces.
\<close>

theorem build_pubmed_query_complex_example:
  \<open>build_pubmed_query ''(SRM 1950 OR SRM1950) AND HILIC'' ''AND'' ''title''
     = ''( "SRM 1950"[Title] OR SRM1950[Title] ) AND HILIC[Title]''\<close>
  by code_simp

text \<open>
  Claim C10. For every keywords string and mode, a \<^verbatim>\<open>search_fields\<close> value other than
  \<^verbatim>\<open>"title"\<close>, \<^verbatim>\<open>"abstract"\<close> and \<^verbatim>\<open>"title_abstract"\<close> gives the empty field tag, and
  the query is the one built for \<^verbatim>\<open>search_fields = "all"\<close>.
\<close>

theorem build_pubmed_query_other_fields:
  assumes "search_fields \<notin> {''title'', ''abstract'', ''title_abstract''}"
  shows "field_tag_of search_fields = ''''
         \<and> build_pubmed_query keywords search_mode search_fields
             = build_pubmed_query keywords search_mode ''all''"
proof -
  from assms have a: "field_tag_of search_fields = ''''"
    by (simp add: field_tag_of_def)
  have b: "field_tag_of ''all'' = ''''"
    by (simp add: field_tag_of_def)
  show ?thesis
    by (simp add: a b build_pubmed_query_def)
qed

theorem build_pubmed_query_other_fields_witness:
  \<open>''fulltext'' \<notin> {''title'', ''abstract'', ''title_abstract''}
   \<and> field_tag_of ''fulltext'' = ''''
   \<and> build_pubmed_query ''(SRM 1950 OR SRM1950) AND HILIC'' ''AND'' ''fulltext''
       = build_pubmed_query ''(SRM 1950 OR SRM1950) AND HILIC'' ''AND'' ''all''\<close>
proof -
  have h: "''fulltext'' \<notin> {''title'', ''abstract'', ''title_abstract''}"
    by simp
  show ?thesis
    using h build_pubmed_query_other_fields [OF h] by blast
qed

text \<open>
  Claim C4. For every input of the complex mode (one with a parenthesis character, or
  with \<^verbatim>\<open>AND\<close> or \<^verbatim>\<open>OR\<close> as a whole word in any case), the parenthesis characters of
  the output of \<^verbatim>\<open>build_pubmed_query\<close> are those of the input, unchanged and in the same
  order.
\<close>

theorem build_pubmed_query_keeps_parentheses:
  assumes "has_parentheses keywords \<or> has_operators keywords"
  shows "filter is_paren (build_pubmed_query keywords search_mode search_fields)
           = filter is_paren keywords"
proof -
  have sp: "filter is_paren '' '' = []" by (simp add: is_paren_def)
  show ?thesis
    using assms
    by (simp add: build_pubmed_query_def Let_def parens_join [OF sp]
        parens_process_tokens [OF parens_field_tag_of] parens_findall_tokens parens_py_strip)
qed

theorem build_pubmed_query_keeps_parentheses_witness:
  \<open>(has_parentheses ''((a OR "b)") and c'' \<or> has_operators ''((a OR "b)") and c'')
   \<and> filter is_paren (build_pubmed_query ''((a OR "b)") and c'' ''OR'' ''abstract'') = ''(())''\<close>
proof -
  have h: \<open>has_parentheses ''((a OR "b)") and c'' \<or> has_operators ''((a OR "b)") and c''\<close>
    by (simp add: has_parentheses_def)
  have \<open>filter is_paren ''((a OR "b)") and c'' = ''(())''\<close>
    by (simp add: is_paren_def)
  with h build_pubmed_query_keeps_parentheses [OF h, of "''OR''" "''abstract''"]
  show ?thesis by simp
qed

text \<open>
  Claim C5. \<^verbatim>\<open>build_pubmed_query\<close> returns the empty string for keywords that are empty
  or hold white space only, for every mode and field scope; in particular for
  \<^verbatim>\<open>("", "AND", "all")\<close> and \<^verbatim>\<open>("   ", "OR", "all")\<close>.
\<close>

theorem build_pubmed_query_blank:
  assumes "list_all is_space keywords"
  shows "build_pubmed_query keywords search_mode search_fields = ''''"
proof -
  have np: "\<not> has_parentheses keywords"
    using assms by (rule has_parentheses_blank)
  have no: "\<not> has_operators keywords"
    using assms by (simp add: has_operators_def search_operator_blank)
  have "\<not> is_space (CHR '','')"
    by (simp add: is_space_def)
  with assms have "CHR '','' \<notin> set keywords"
    by (rule blank_without)
  then have sp: "py_split (CHR '','') keywords = [keywords]"
    by (rule py_split_no_sep)
  have st: "py_strip keywords = []"
    using assms by (rule py_strip_blank)
  show ?thesis
    by (simp add: build_pubmed_query_def np no sp st)
qed

theorem build_pubmed_query_blank_witness:
  "list_all is_space '''' \<and> build_pubmed_query '''' ''AND'' ''all'' = ''''
   \<and> list_all is_space ''   '' \<and> build_pubmed_query ''   '' ''OR'' ''all'' = ''''"
proof -
  have h1: "list_all is_space ''''" by simp
  have h2: "list_all is_space ''   ''" by (simp add: is_space_def)
  show ?thesis
    using h1 h2 build_pubmed_query_blank [OF h1, of "''AND''" "''all''"] build_pubmed_query_blank [OF h2, of "''OR''" "''all''"]
    by simp
qed

text \<open>
  Claim C3, as stated: for every input of the simple mode the output is the tagged
  terms of \<^const>\<open>simple_terms\<close> joined by the mode. It fails for the input \<^verbatim>\<open>","\<close>,
  which has no term: the code falls back on the whole trimmed input as the one term.
\<close>

theorem build_pubmed_query_simple_counterexample:
  "\<not> has_parentheses '','' \<and> \<not> has_operators '',''
   \<and> build_pubmed_query '','' ''AND'' ''title'' = '',[Title]''
   \<and> simple_query_spec '','' ''AND'' ''title'' = ''''"
  by code_simp

text \<open>
  Claim C3, amended. For every input of the simple mode (no parenthesis character and
  no whole word \<^verbatim>\<open>AND\<close> or \<^verbatim>\<open>OR\<close> in any case) with at least one non-blank piece
  between commas, \<^verbatim>\<open>build_pubmed_query\<close> splits on commas, trims each piece, drops the
  empty pieces, wraps each term containing a space in double quotes, appends the field
  tag to every term, and joins the tagged terms in their order with the uppercased mode
  between spaces; when every piece is blank, the whole trimmed input is the one term,
  and the output is empty when the trimmed input is. In particular, with such a piece,
  mode \<^verbatim>\<open>AND\<close> and no space in any term, the output is the terms, each with the field
  tag appended, joined by \<^verbatim>\<open>" AND "\<close>; and
  \<^verbatim>\<open>build_pubmed_query("SRM 1950, HILIC", "AND", "all")\<close> is \<^verbatim>\<open>"SRM 1950" AND HILIC\<close>.
\<close>

theorem build_pubmed_query_simple:
  \<open>(\<not> has_parentheses keywords \<and> \<not> has_operators keywords \<longrightarrow>
      build_pubmed_query keywords search_mode search_fields =
        (if simple_terms keywords = []
         then (if py_strip keywords = [] then ''''
               else quote_and_tag (field_tag_of search_fields) (py_strip keywords))
         else simple_query_spec keywords search_mode search_fields))
   \<and> (\<not> has_parentheses keywords \<and> \<not> has_operators keywords
        \<and> simple_terms keywords \<noteq> []
        \<and> list_all (\<lambda>t. CHR '' '' \<notin> set t) (simple_terms keywords) \<longrightarrow>
      build_pubmed_query keywords ''AND'' search_fields =
        py_join '' AND ''
          (map (\<lambda>t. t @ field_tag_of search_fields) (simple_terms keywords)))
   \<and> build_pubmed_query ''SRM 1950, HILIC'' ''AND'' ''all'' = ''"SRM 1950" AND HILIC''\<close>
proof (intro conjI impI)
  assume "\<not> has_parentheses keywords \<and> \<not> has_operators keywords"
  then show "build_pubmed_query keywords search_mode search_fields =
        (if simple_terms keywords = []
         then (if py_strip keywords = [] then ''''
               else quote_and_tag (field_tag_of search_fields) (py_strip keywords))
         else simple_query_spec keywords search_mode search_fields)"
    by (simp add: build_pubmed_query_simple_mode)
next
  assume a: "\<not> has_parentheses keywords \<and> \<not> has_operators keywords
        \<and> simple_terms keywords \<noteq> []
        \<and> list_all (\<lambda>t. CHR '' '' \<notin> set t) (simple_terms keywords)"
  then have m: "map (quote_and_tag (field_tag_of search_fields)) (simple_terms keywords)
               = map (\<lambda>t. t @ field_tag_of search_fields) (simple_terms keywords)"
    by (intro map_cong [OF refl]) (simp add: list_all_iff quote_and_tag_no_space)
  have u: "'' '' @ py_upper ''AND'' @ '' '' = '' AND ''"
    by code_simp
  have "simple_query_spec keywords ''AND'' search_fields =
          py_join '' AND ''
            (map (\<lambda>t. t @ field_tag_of search_fields) (simple_terms keywords))"
    unfolding simple_query_spec_def m u ..
  with a show "build_pubmed_query keywords ''AND'' search_fields =
        py_join '' AND ''
          (map (\<lambda>t. t @ field_tag_of search_fields) (simple_terms keywords))"
    by (simp add: build_pubmed_query_simple_mode)
next
  show \<open>build_pubmed_query ''SRM 1950, HILIC'' ''AND'' ''all'' = ''"SRM 1950" AND HILIC''\<close>
    by code_simp
qed

theorem build_pubmed_query_simple_witness:
  \<open>\<not> has_parentheses ''SRM1950, HILIC ,, serum'' \<and> \<not> has_operators ''SRM1950, HILIC ,, serum''
   \<and> simple_terms ''SRM1950, HILIC ,, serum'' = [''SRM1950'', ''HILIC'', ''serum'']
   \<and> list_all (\<lambda>t. CHR '' '' \<notin> set t) (simple_terms ''SRM1950, HILIC ,, serum'')
   \<and> build_pubmed_query ''SRM1950, HILIC ,, serum'' ''AND'' ''title''
        = ''SRM1950[Title] AND HILIC[Title] AND serum[Title]''\<close>
proof -
  have h: \<open>\<not> has_parentheses ''SRM1950, HILIC ,, serum''
           \<and> \<not> has_operators ''SRM1950, HILIC ,, serum''
           \<and> simple_terms ''SRM1950, HILIC ,, serum'' \<noteq> []
           \<and> list_all (\<lambda>t. CHR '' '' \<notin> set t) (simple_terms ''SRM1950, HILIC ,, serum'')\<close>
    by code_simp
  have t: \<open>simple_terms ''SRM1950, HILIC ,, serum'' = [''SRM1950'', ''HILIC'', ''serum'']\<close>
    by code_simp
  from h build_pubmed_query_simple [of "''SRM1950, HILIC ,, serum''" "''AND''" "''title''"]
  have \<open>build_pubmed_query ''SRM1950, HILIC ,, serum'' ''AND'' ''title''
          = py_join '' AND ''
              (map (\<lambda>t. t @ field_tag_of ''title'') (simple_terms ''SRM1950, HILIC ,, serum''))\<close>
    by blast
  also have \<open>\<dots> = ''SRM1950[Title] AND HILIC[Title] AND serum[Title]''\<close>
    unfolding t by (simp add: field_tag_of_def)
  finally show ?thesis
    using h t by simp
qed

section \<open>The record extractor: claims\<close>

text \<open>
  Claim C1. Extraction defaults a missing identifier to \<^verbatim>\<open>"unknown"\<close> and the other
  missing sub-fields to their placeholders, and one malformed article element never
  keeps the other article elements of the document from being extracted. The code
  breaks the second half. In the second sample document the first article has an empty
  title element: the text of the element is \<^verbatim>\<open>None\<close>, the constructor of \<^verbatim>\<open>Article\<close>
  raises on it, the one handler around the whole loop ends the loop, and the second
  article, which extracts on its own, is lost with the first. The first half holds: an
  article element with no sub-element at all extracts to the placeholders.
\<close>

theorem parse_pubmed_xml_textless_title:
  "sample_fromstring textless_title_xml = Inr textless_title_document
   \<and> map extract_article (findall_descendant ''PubmedArticle'' textless_title_document)
       = [Inl ValidationError,
          Inr \<lparr> article_id = ''2'', title = ''Second'', authors = [],
                abstract = ''No abstract available'', publication_date = None,
                source = ''pubmed'', url = ''https://pubmed.ncbi.nlm.nih.gov/2/'',
                journal = None, is_open_access = Some False, has_dataset = None,
                classification_reason = None, data_availability = None, labels = None,
                method_types = None \<rparr>]
   \<and> parse_pubmed_xml sample_fromstring textless_title_xml [''1'', ''2''] = Inr []
   \<and> extract_article (Element ''PubmedArticle'' [] None [])
       = Inr \<lparr> article_id = ''unknown'', title = ''No title'', authors = [],
               abstract = ''No abstract available'', publication_date = None,
               source = ''pubmed'', url = ''https://pubmed.ncbi.nlm.nih.gov/unknown/'',
               journal = None, is_open_access = Some False, has_dataset = None,
               classification_reason = None, data_availability = None, labels = None,
               method_types = None \<rparr>"
  by code_simp

text \<open>
  Claim C6. For every text that is not well-formed XML, that is, every text on which
  the parser raises, \<^verbatim>\<open>parse_pubmed_xml\<close> returns the empty list and raises nothing.
\<close>

theorem parse_pubmed_xml_parse_failure:
  assumes "fromstring xml_text = Inl e"
  shows "parse_pubmed_xml fromstring xml_text pmids = Inr []"
  using assms by (simp add: parse_pubmed_xml_def)

theorem parse_pubmed_xml_parse_failure_witness:
  "sample_fromstring ''<PubmedArticleSet><PubmedArticle>'' = Inl ParseError
   \<and> parse_pubmed_xml sample_fromstring ''<PubmedArticleSet><PubmedArticle>'' [''31'']
       = Inr []"
proof -
  have h: "sample_fromstring ''<PubmedArticleSet><PubmedArticle>'' = Inl ParseError"
    by code_simp
  show ?thesis
    using h parse_pubmed_xml_parse_failure
      [of sample_fromstring "''<PubmedArticleSet><PubmedArticle>''" ParseError "[''31'']"]
    by simp
qed

text \<open>
  Claim C7. Every Article that \<^verbatim>\<open>parse_pubmed_xml\<close> returns comes from the article
  element at its position, and its \<^verbatim>\<open>is_open_access\<close> is true if and only if that
  element contains an \<^verbatim>\<open>ArticleId\<close> of the PMC type or a \<^verbatim>\<open>PublicationType\<close> whose text
  contains \<^verbatim>\<open>open access\<close> in any case; in particular a PMC identifier alone gives true.
  The right-hand side is the rule in the words of the specification
  (\<^const>\<open>has_pmc_id\<close>, \<^const>\<open>has_open_access_type\<close>), which does not use the program's
  \<^verbatim>\<open>lower\<close> and \<^verbatim>\<open>in\<close>. The instances are the article with a PMC identifier and the
  type \<^verbatim>\<open>Journal Article\<close>, the article with no PMC identifier and the type
  \<^verbatim>\<open>OPEN ACCESS Article\<close>, and the article with no PMC identifier and the type
  \<^verbatim>\<open>Open Acces Review\<close>, which misses the phrase by a letter.
\<close>

theorem parse_pubmed_xml_open_access:
  assumes "fromstring xml_text = Inr root"
    and "parse_pubmed_xml fromstring xml_text pmids = Inr arts"
    and "i < length arts"
  shows "i < length (findall_descendant ''PubmedArticle'' root)
         \<and> is_open_access (arts ! i)
             = Some (has_pmc_id (findall_descendant ''PubmedArticle'' root ! i)
                     \<or> has_open_access_type (findall_descendant ''PubmedArticle'' root ! i))
         \<and> (has_pmc_id (findall_descendant ''PubmedArticle'' root ! i)
              \<longrightarrow> is_open_access (arts ! i) = Some True)"
proof -
  let ?es = "findall_descendant ''PubmedArticle'' root"
  obtain ex where l: "extract_loop ?es [] = (arts, ex)"
    using assms(1,2) by (cases "extract_loop ?es []") (simp add: parse_pubmed_xml_def)
  from extract_loop_prefix [OF l] have
    len: "length arts \<le> length ?es"
    and nth: "\<forall>i<length arts. extract_article (?es ! i) = Inr (arts ! i)"
    by auto
  from nth assms(3) have "extract_article (?es ! i) = Inr (arts ! i)" by simp
  then have "is_open_access (arts ! i)
               = Some (has_pmc_id (?es ! i) \<or> has_open_access_type (?es ! i))"
    by (rule extract_article_open_access)
  with len assms(3) show ?thesis by simp
qed

theorem parse_pubmed_xml_open_access_witness:
  "sample_fromstring pmc_xml = Inr pmc_document
   \<and> parse_pubmed_xml sample_fromstring pmc_xml [''31'']
       = Inr [\<lparr> article_id = ''31'', title = ''Lipids in plasma'', authors = [],
                 abstract = ''No abstract available'', publication_date = None,
                 source = ''pubmed'', url = ''https://pubmed.ncbi.nlm.nih.gov/31/'',
                 journal = None, is_open_access = Some True, has_dataset = None,
                 classification_reason = None, data_availability = None, labels = None,
                 method_types = None \<rparr>]
   \<and> has_pmc_id (findall_descendant ''PubmedArticle'' pmc_document ! 0)
   \<and> \<not> has_open_access_type (findall_descendant ''PubmedArticle'' pmc_document ! 0)
   \<and> sample_fromstring publication_type_xml = Inr publication_type_document
   \<and> parse_pubmed_xml sample_fromstring publication_type_xml [''41'', ''42'']
       = Inr [\<lparr> article_id = ''41'', title = ''Open data'', authors = [],
                 abstract = ''No abstract available'', publication_date = None,
                 source = ''pubmed'', url = ''https://pubmed.ncbi.nlm.nih.gov/41/'',
                 journal = None, is_open_access = Some True, has_dataset = None,
                 classification_reason = None, data_availability = None, labels = None,
                 method_types = None \<rparr>,
              \<lparr> article_id = ''42'', title = ''Closed data'', authors = [],
                 abstract = ''No abstract available'', publication_date = None,
                 source = ''pubmed'', url = ''https://pubmed.ncbi.nlm.nih.gov/42/'',
                 journal = None, is_open_access = Some False, has_dataset = None,
                 classification_reason = None, data_availability = None, labels = None,
                 method_types = None \<rparr>]
   \<and> \<not> has_pmc_id (findall_descendant ''PubmedArticle'' publication_type_document ! 0)
   \<and> has_open_access_type (findall_descendant ''PubmedArticle'' publication_type_document ! 0)
   \<and> \<not> has_pmc_id (findall_descendant ''PubmedArticle'' publication_type_document ! 1)
   \<and> \<not> has_open_access_type
         (findall_descendant ''PubmedArticle'' publication_type_document ! 1)"
proof -
  define a where
    "a = \<lparr> article_id = ''31'', title = ''Lipids in plasma'', authors = [],
           abstract = ''No abstract available'', publication_date = None,
           source = ''pubmed'', url = ''https://pubmed.ncbi.nlm.nih.gov/31/'',
           journal = None, is_open_access = Some True, has_dataset = None,
           classification_reason = None, data_availability = None, labels = None,
           method_types = None \<rparr>"
  define b where
    "b = \<lparr> article_id = ''41'', title = ''Open data'', authors = [],
           abstract = ''No abstract available'', publication_date = None,
           source = ''pubmed'', url = ''https://pubmed.ncbi.nlm.nih.gov/41/'',
           journal = None, is_open_access = Some True, has_dataset = None,
           classification_reason = None, data_availability = None, labels = None,
           method_types = None \<rparr>"
  define c where
    "c = \<lparr> article_id = ''42'', title = ''Closed data'', authors = [],
           abstract = ''No abstract available'', publication_date = None,
           source = ''pubmed'', url = ''https://pubmed.ncbi.nlm.nih.gov/42/'',
           journal = None, is_open_access = Some False, has_dataset = None,
           classification_reason = None, data_availability = None, labels = None,
           method_types = None \<rparr>"
  have h1: "sample_fromstring pmc_xml = Inr pmc_document"
    by code_simp
  have h2: "parse_pubmed_xml sample_fromstring pmc_xml [''31''] = Inr [a]"
    unfolding a_def by code_simp
  have h3: "0 < length [a]"
    by simp
  have q: "\<not> has_open_access_type (findall_descendant ''PubmedArticle'' pmc_document ! 0)"
    by code_simp
  from parse_pubmed_xml_open_access
    [of sample_fromstring pmc_xml pmc_document "[''31'']" "[a]" 0, OF h1 h2 h3] q
  have p: "has_pmc_id (findall_descendant ''PubmedArticle'' pmc_document ! 0)"
    by (simp add: a_def)
  have g1: "sample_fromstring publication_type_xml = Inr publication_type_document"
    by code_simp
  have g2: "parse_pubmed_xml sample_fromstring publication_type_xml [''41'', ''42'']
              = Inr [b, c]"
    unfolding b_def c_def by code_simp
  have g3: "0 < length [b, c]" "1 < length [b, c]"
    by simp_all
  have n0: "\<not> has_pmc_id (findall_descendant ''PubmedArticle'' publication_type_document ! 0)"
    by code_simp
  have n1: "\<not> has_pmc_id (findall_descendant ''PubmedArticle'' publication_type_document ! 1)"
    by code_simp
  have t0: "has_open_access_type
              (findall_descendant ''PubmedArticle'' publication_type_document ! 0)"
    by code_simp
  from parse_pubmed_xml_open_access
    [of sample_fromstring publication_type_xml publication_type_document "[''41'', ''42'']"
        "[b, c]" 1, OF g1 g2 g3(2)] n1
  have t1: "\<not> has_open_access_type
              (findall_descendant ''PubmedArticle'' publication_type_document ! 1)"
    by (simp add: c_def)
  from parse_pubmed_xml_open_access
    [of sample_fromstring publication_type_xml publication_type_document "[''41'', ''42'']"
        "[b, c]" 0, OF g1 g2 g3(1)] n0 t0
  have "is_open_access b = Some True"
    by simp
  then show ?thesis
    using h1 h2 p q g1 g2 n0 n1 t0 t1 by (simp add: a_def b_def c_def)
qed

text \<open>
  Claim C8. For every document and any two lists of expected identifiers,
  \<^verbatim>\<open>parse_pubmed_xml\<close> returns the same Articles: the result does not depend on the
  \<^verbatim>\<open>pmids\<close> argument.
\<close>

theorem parse_pubmed_xml_ignores_pmids:
  "parse_pubmed_xml fromstring xml_text pmids = parse_pubmed_xml fromstring xml_text pmids'"
  by (simp add: parse_pubmed_xml_def)

section \<open>The responses built from the language model's answer: claims\<close>

text \<open>
  Claim C9. For each field on its own: when the dictionary parsed from the model's
  answer has no entry for the key, the response of \<^verbatim>\<open>/generate-query\<close> holds \<^verbatim>\<open>""\<close>
  for \<^verbatim>\<open>pubmed_query\<close>, \<^verbatim>\<open>[]\<close> for \<^verbatim>\<open>extracted_concepts\<close>, \<^verbatim>\<open>{}\<close> for \<^verbatim>\<open>synonyms_used\<close>
  and \<^verbatim>\<open>""\<close> for \<^verbatim>\<open>explanation\<close>, and the response of \<^verbatim>\<open>/classify\<close> holds \<^verbatim>\<open>false\<close> for
  \<^verbatim>\<open>has_dataset\<close>, \<^verbatim>\<open>"low"\<close> for \<^verbatim>\<open>confidence\<close>, the placeholder
  \<^verbatim>\<open>"Unable to determine"\<close> for \<^verbatim>\<open>reason\<close>, \<^verbatim>\<open>null\<close> for \<^verbatim>\<open>data_availability\<close>, and \<^verbatim>\<open>[]\<close>
  for \<^verbatim>\<open>labels\<close> and for \<^verbatim>\<open>method_types\<close>.
\<close>

theorem llm_response_defaults:
  "(map_of query_result ''pubmed_query'' = None \<longrightarrow>
      map_of (generate_query_response query_result) ''pubmed_query'' = Some (JString ''''))
   \<and> (map_of query_result ''extracted_concepts'' = None \<longrightarrow>
      map_of (generate_query_response query_result) ''extracted_concepts'' = Some (JArray []))
   \<and> (map_of query_result ''synonyms_used'' = None \<longrightarrow>
      map_of (generate_query_response query_result) ''synonyms_used'' = Some (JObject []))
   \<and> (map_of query_result ''explanation'' = None \<longrightarrow>
      map_of (generate_query_response query_result) ''explanation'' = Some (JString ''''))
   \<and> (map_of classification ''has_dataset'' = None \<longrightarrow>
      map_of (classify_response request_id classification) ''has_dataset'' = Some (JBool False))
   \<and> (map_of classification ''confidence'' = None \<longrightarrow>
      map_of (classify_response request_id classification) ''confidence'' = Some (JString ''low''))
   \<and> (map_of classification ''reason'' = None \<longrightarrow>
      map_of (classify_response request_id classification) ''reason''
        = Some (JString ''Unable to determine''))
   \<and> (map_of classification ''data_availability'' = None \<longrightarrow>
      map_of (classify_response request_id classification) ''data_availability'' = Some JNull)
   \<and> (map_of classification ''labels'' = None \<longrightarrow>
      map_of (classify_response request_id classification) ''labels'' = Some (JArray []))
   \<and> (map_of classification ''method_types'' = None \<longrightarrow>
      map_of (classify_response request_id classification) ''method_types'' = Some (JArray []))
   \<and> generate_query (JObject query_result) = Inr (generate_query_response query_result)
   \<and> classify_abstract request_id (JObject classification)
       = Inr (classify_response request_id classification)"
  by (simp add: generate_query_response_def classify_response_def dict_get_missing
      generate_query_def classify_abstract_def)

theorem llm_response_defaults_witness:
  "map_of ([] :: (string \<times> json) list) ''pubmed_query'' = None
   \<and> map_of (generate_query_response []) ''pubmed_query'' = Some (JString '''')
   \<and> map_of (generate_query_response []) ''extracted_concepts'' = Some (JArray [])
   \<and> map_of (generate_query_response []) ''synonyms_used'' = Some (JObject [])
   \<and> map_of (generate_query_response []) ''explanation'' = Some (JString '''')
   \<and> map_of (classify_response ''31'' []) ''has_dataset'' = Some (JBool False)
   \<and> map_of (classify_response ''31'' []) ''confidence'' = Some (JString ''low'')
   \<and> map_of (classify_response ''31'' []) ''reason'' = Some (JString ''Unable to determine'')
   \<and> map_of (classify_response ''31'' []) ''data_availability'' = Some JNull
   \<and> map_of (classify_response ''31'' []) ''labels'' = Some (JArray [])
   \<and> map_of (classify_response ''31'' []) ''method_types'' = Some (JArray [])"
  using llm_response_defaults [of "[]" "[]" "''31''"] by simp

end
